theory Spec2Isabelle
  imports Complex_Main "HOL-Library.Multiset"
begin

section \<open>The moment-aggregation engine of video\_search.py\<close>

text \<open>
  The development embeds the aggregation endpoints of \<^verbatim>\<open>src/video_search.py\<close>:
  \<^verbatim>\<open>update_metrics\<close>, \<^verbatim>\<open>compute_averages\<close>, \<^verbatim>\<open>aggregated_graphs\<close>,
  \<^verbatim>\<open>aggregated_line\<close> and \<^verbatim>\<open>aggregated_box\<close>. HTML rendering and the plots are left
  out; every function returns the data the page and the CSV download are built from.

  Conventions of the embedding.
  \<^item> A Python float is a \<^typ>\<open>real\<close>: arithmetic is exact. A cell of a data frame is a
    \<^typ>\<open>real option\<close>, where \<open>None\<close> is pandas' missing value (NaN).
  \<^item> The request's parallel lists \<^verbatim>\<open>video_id\<close>, \<^verbatim>\<open>start_time\<close>, \<^verbatim>\<open>end_time\<close>,
    \<^verbatim>\<open>ad_name\<close> are one list of records. A start or end time on which
    \<^verbatim>\<open>float(...)\<close> raises is \<open>None\<close>.
  \<^item> The folder of CSV files is a function from the video identifier to what
    \<^verbatim>\<open>os.path.exists\<close> and \<^verbatim>\<open>pd.read_csv\<close> do with its file.
  \<^item> A dictionary whose keys are the canonical measures is a function of the measure
    name; it is only ever looked up at a canonical measure.
\<close>

subsection \<open>Measures\<close>

definition ORDERED_MEASURES :: "string list" where
  "ORDERED_MEASURES =
    [''Approach / Withdraw'',
     ''Engagement'',
     ''Emotional Intensity'',
     ''Memory Encoding - Detail'',
     ''Memory Encoding - Global'',
     ''Memory Encoding - Composite'',
     ''General Attention - Detail'',
     ''General Attention - Global'',
     ''General Attention - Composite'',
     ''Visual Attention - Detail'',
     ''Visual Attention - Global'',
     ''Visual Attention - Composite'']"

subsection \<open>Data frames, the CSV folder, moments\<close>

text \<open>
  A data frame read by \<^verbatim>\<open>pd.read_csv(csv_filename, header=1)\<close> after its first column
  has been renamed \<^verbatim>\<open>"Time"\<close>: the names of the other columns, and the rows, each a time
  and the cells of the row by column name. The time column is taken to be numeric in
  every row.
\<close>

type_synonym row = "real \<times> (string \<Rightarrow> real option)"

record dataframe =
  columns :: "string list"
  rows :: "row list"

datatype csv_file = Missing | Unreadable | Readable dataframe

type_synonym csv_folder = "string \<Rightarrow> csv_file"

record moment =
  video_id :: string
  start_time :: "real option"
  end_time :: "real option"
  ad_name :: string

text \<open>
  What an endpoint answers instead of a result: the 400 page "No valid CSV data ...", the
  404 page "CSV file not found.", the page "No CSV data found for these timepoints.",
  the 500 page "Error computing metrics", and a \<^verbatim>\<open>ValueError\<close> that no handler
  catches (the request fails).
\<close>

datatype error = NoValidData | NotFound | EmptySegment | ComputeError | ValueError

text \<open>\<^verbatim>\<open>df["Time"].min()\<close> and \<^verbatim>\<open>df["Time"].max()\<close>: NaN on a frame with no rows.\<close>

definition Time_min :: "dataframe \<Rightarrow> real option" where
  "Time_min df = (if rows df = [] then None else Some (Min (set (map fst (rows df)))))"

definition Time_max :: "dataframe \<Rightarrow> real option" where
  "Time_max df = (if rows df = [] then None else Some (Max (set (map fst (rows df)))))"

text \<open>\<^verbatim>\<open>seg[name]\<close>: the cells of one column.\<close>

definition col :: "('a dataframe_scheme) \<Rightarrow> string \<Rightarrow> real option list" where
  "col df name = map (\<lambda>r. snd r name) (rows df)"

text \<open>\<^verbatim>\<open>.dropna().tolist()\<close>\<close>

definition dropna :: "real option list \<Rightarrow> real list" where
  "dropna vs = map the (filter (\<lambda>v. v \<noteq> None) vs)"

subsection \<open>Segment extraction with end-snapping\<close>

text \<open>
  The block that \<^verbatim>\<open>update_metrics\<close>, \<^verbatim>\<open>compute_averages\<close> and \<^verbatim>\<open>aggregated_box\<close>
  each repeat:
  \<^verbatim>\<open>
  csv_max_time = df["Time"].max()
  if abs(et - csv_max_time) <= 0.05:
      et = csv_max_time
  segment = df[(df["Time"] >= st) & (df["Time"] <= et)]
  \<close>
  A comparison with NaN is false, so an empty frame leaves \<open>et\<close> as it is.
\<close>

definition snap_end :: "dataframe \<Rightarrow> real \<Rightarrow> real" where
  "snap_end df et =
     (case Time_max df of
        None \<Rightarrow> et
      | Some csv_max_time \<Rightarrow> if \<bar>et - csv_max_time\<bar> \<le> 0.05 then csv_max_time else et)"

definition between :: "dataframe \<Rightarrow> real \<Rightarrow> real \<Rightarrow> dataframe" where
  "between df lo hi = df\<lparr>rows := filter (\<lambda>r. lo \<le> fst r \<and> fst r \<le> hi) (rows df)\<rparr>"

definition segment :: "dataframe \<Rightarrow> real \<Rightarrow> real \<Rightarrow> dataframe" where
  "segment df st et = between df st (snap_end df et)"

subsection \<open>Series statistics of pandas\<close>



definition series_mean :: "real option list \<Rightarrow> real option" where
  "series_mean vs =
     (let xs = dropna vs
      in if xs = [] then None else Some (sum_list xs / real (length xs)))"

definition series_std :: "real option list \<Rightarrow> real option" where
  "series_std vs =
     (let xs = dropna vs; n = length xs
      in if n \<le> 1 then None
         else let mean = sum_list xs / real n
              in Some (sqrt (sum_list (map (\<lambda>x. (x - mean)\<^sup>2) xs) / real (n - 1))))"

subsection \<open>update\_metrics\<close>



subsection \<open>compute\_averages\<close>

text \<open>
  \<^verbatim>\<open>pd.concat(combined_segments)\<close>: the rows of all segments, over the union of their
  columns; a row has no value in a column its own segment lacks.
\<close>

definition pd_concat :: "dataframe list \<Rightarrow> dataframe" where
  "pd_concat segs =
     \<lparr>columns = remdups (concat (map columns segs)),
      rows = concat (map (\<lambda>seg. map (\<lambda>r. (fst r, \<lambda>c. if c \<in> set (columns seg) then snd r c else None))
                                   (rows seg)) segs)\<rparr>"

text \<open>\<^verbatim>\<open>min(durations) if durations else 0\<close>, over the moments whose times parse.\<close>

definition durations :: "moment list \<Rightarrow> real list" where
  "durations ms =
     concat (map (\<lambda>m. case (start_time m, end_time m) of
                         (Some st, Some et) \<Rightarrow> [et - st]
                       | _ \<Rightarrow> []) ms)"

definition py_min :: "real list \<Rightarrow> real" where
  "py_min xs = fold min (tl xs) (hd xs)"

definition pure_duration_of :: "moment list \<Rightarrow> real" where
  "pure_duration_of ms = (if durations ms \<noteq> [] then py_min (durations ms) else 0)"

text \<open>
  Lines 706--730: the body of the loop over the moments, on the list it appends to.
  \<^verbatim>\<open>
  try:
      st = float(start_time[i]); et = float(end_time[i])
  except ValueError:
      continue
  if not os.path.exists(csv_filename):
      continue
  try:
      df = pd.read_csv(csv_filename, header=1)
      ...
      segment = df[(df["Time"] >= st) & (df["Time"] <= et)]
      if not segment.empty:
          combined_segments.append(segment)
  except Exception:
      continue
  \<close>
\<close>

definition combine_step :: "csv_folder \<Rightarrow> moment \<Rightarrow> dataframe list \<Rightarrow> dataframe list" where
  "combine_step folder m combined_segments =
     (case (start_time m, end_time m) of
        (Some st, Some et) \<Rightarrow>
          (case folder (video_id m) of
             Missing \<Rightarrow> combined_segments
           | Unreadable \<Rightarrow> combined_segments
           | Readable df \<Rightarrow>
               let seg = segment df st et
               in if rows seg \<noteq> [] then combined_segments @ [seg] else combined_segments)
      | _ \<Rightarrow> combined_segments)"

text \<open>
  Lines 729--754: the answer is the 400 page when no segment was kept; otherwise the mean
  of each canonical measure among the columns of the concatenated segments, and the pure
  duration the page shows.
\<close>

record averages =
  average_metrics :: "(string \<times> real option) list"
  shown_duration :: real

definition compute_averages :: "csv_folder \<Rightarrow> moment list \<Rightarrow> error + averages" where
  "compute_averages folder ms =
     (let combined_segments = fold (combine_step folder) ms []
      in if combined_segments = [] then Inl NoValidData
         else let combined_df = pd_concat combined_segments
              in Inr \<lparr>average_metrics =
                        map (\<lambda>c. (c, series_mean (col combined_df c)))
                          (filter (\<lambda>c. c \<in> set (columns combined_df)) ORDERED_MEASURES),
                      shown_duration = pure_duration_of ms\<rparr>)"

subsection \<open>aggregated\_box\<close>

datatype cell = CStr string | CInt int | CFloat "real option"

text \<open>\<^verbatim>\<open>str\<close> of a natural number, for the header \<^verbatim>\<open>Value_1 .. Value_N\<close>.\<close>

fun str_nat :: "nat \<Rightarrow> string" where
  "str_nat n =
     (if n < 10 then [char_of (48 + n)]
      else str_nat (n div 10) @ [char_of (48 + n mod 10)])"

text \<open>
  Lines 1058--1080: the body of the loop over the moments, on the dictionary
  \<^verbatim>\<open>box_data\<close>. The times and the file are treated as in \<^verbatim>\<open>compute_averages\<close>
  (every failure is a \<^verbatim>\<open>continue\<close>); then
  \<^verbatim>\<open>
  seg = df[(df["Time"] >= st) & (df["Time"] <= et)]
  if not seg.empty:
      for measure in ORDERED_MEASURES:
          if measure in df.columns:
              box_data[measure].extend(seg[measure].dropna().tolist())
  \<close>
\<close>

definition box_step :: "csv_folder \<Rightarrow> moment \<Rightarrow> (string \<Rightarrow> real list) \<Rightarrow> (string \<Rightarrow> real list)" where
  "box_step folder m box_data =
     (case (start_time m, end_time m) of
        (Some st, Some et) \<Rightarrow>
          (case folder (video_id m) of
             Missing \<Rightarrow> box_data
           | Unreadable \<Rightarrow> box_data
           | Readable df \<Rightarrow>
               let seg = segment df st et
               in if rows seg \<noteq> []
                  then fold (\<lambda>name bd. if name \<in> set (columns df)
                                         then bd(name := bd name @ dropna (col seg name))
                                         else bd)
                         ORDERED_MEASURES box_data
                  else box_data)
      | _ \<Rightarrow> box_data)"

text \<open>
  Lines 1139--1151: the rows of the CSV.
  \<^verbatim>\<open>
  max_len = max((len(v) for v in box_data.values() if v), default=0)
  header = ["Query", "Measure"] + [f"Value_{i+1}" for i in range(max_len)]
  for measure in ORDERED_MEASURES:
      if box_data[measure]:
          row = [query, measure] + box_data[measure]
          row += [""] * (max_len - len(box_data[measure]))
  \<close>
\<close>

definition box_csv :: "string \<Rightarrow> (string \<Rightarrow> real list) \<Rightarrow> cell list list" where
  "box_csv query box_data =
     (let max_len = fold max (map (\<lambda>name. length (box_data name))
                                 (filter (\<lambda>name. box_data name \<noteq> []) ORDERED_MEASURES)) 0;
          header = [CStr ''Query'', CStr ''Measure'']
                   @ map (\<lambda>i. CStr (''Value_'' @ str_nat (i + 1))) [0..<max_len]
      in header #
         map (\<lambda>name. [CStr query, CStr name]
                       @ map (\<lambda>v. CFloat (Some v)) (box_data name)
                       @ replicate (max_len - length (box_data name)) (CStr []))
           (filter (\<lambda>name. box_data name \<noteq> []) ORDERED_MEASURES))"

record box_result =
  box_data_of :: "string \<Rightarrow> real list"
  box_rows :: "cell list list"

definition aggregated_box :: "csv_folder \<Rightarrow> moment list \<Rightarrow> string \<Rightarrow> box_result" where
  "aggregated_box folder ms query =
     (let box_data = fold (box_step folder) ms (\<lambda>name. [])
      in \<lparr>box_data_of = box_data, box_rows = box_csv query box_data\<rparr>)"

subsection \<open>aggregated\_line\<close>

text \<open>
  \<^verbatim>\<open>np.linspace(start, stop, num)\<close> as numpy computes it: \<open>num\<close> multiples of the step
  \<open>(stop - start) / (num - 1)\<close> added to \<open>start\<close>, the last point then set to \<open>stop\<close>.
\<close>

definition np_linspace :: "real \<Rightarrow> real \<Rightarrow> nat \<Rightarrow> real list" where
  "np_linspace start stop num =
     (let step = (stop - start) / real (num - 1);
          y = map (\<lambda>i. real i * step + start) [0..<num]
      in if num > 1 then y[num - 1 := stop] else y)"

text \<open>
  \<^verbatim>\<open>np.interp(x, xp, fp)\<close> at one point \<open>x\<close>, over the sample points \<open>zip xp fp\<close>:
  left of the first sample its value, from the last sample on its value, at a sample
  its value, and between two samples the line through them. numpy searches the interval
  by bisection, which on increasing \<open>xp\<close> finds the interval the scan below finds. A
  missing value at either end of the interval gives a missing value.
\<close>

definition line_through :: "real \<Rightarrow> real option \<Rightarrow> real \<Rightarrow> real option \<Rightarrow> real \<Rightarrow> real option" where
  "line_through x0 y0 x1 y1 x =
     (case (y0, y1) of
        (Some a, Some b) \<Rightarrow> Some ((b - a) / (x1 - x0) * (x - x0) + a)
      | _ \<Rightarrow> None)"

fun interp_scan :: "real \<Rightarrow> (real \<times> real option) list \<Rightarrow> real option" where
  "interp_scan x [] = None"
| "interp_scan x [(x0, y0)] = y0"
| "interp_scan x ((x0, y0) # (x1, y1) # ps) =
     (if x < x1 then (if x = x0 then y0 else line_through x0 y0 x1 y1 x)
      else interp_scan x ((x1, y1) # ps))"

definition interp_at :: "real \<Rightarrow> (real \<times> real option) list \<Rightarrow> real option" where
  "interp_at x ps =
     (case ps of
        [] \<Rightarrow> None
      | (x0, y0) # _ \<Rightarrow> if x < x0 then y0 else interp_scan x ps)"

text \<open>The call on an array of points: it raises \<^verbatim>\<open>ValueError\<close> on no sample points.\<close>

definition np_interp :: "real list \<Rightarrow> real list \<Rightarrow> real option list \<Rightarrow> error + real option list" where
  "np_interp xs xp fp =
     (if xp = [] then Inl ValueError else Inr (map (\<lambda>x. interp_at x (zip xp fp)) xs))"

text \<open>
  \<^verbatim>\<open>np.mean(np.vstack(arrays), axis=0)\<close>: the mean of each column of the stacked arrays;
  a missing value in a column makes its mean missing.
\<close>

definition nan_mean :: "real option list \<Rightarrow> real option" where
  "nan_mean vs =
     (if None \<in> set vs then None else Some (sum_list (map the vs) / real (length vs)))"

definition np_mean_axis0 :: "real option list list \<Rightarrow> real option list" where
  "np_mean_axis0 stacked =
     map (\<lambda>j. nan_mean (map (\<lambda>a. a ! j) stacked)) [0..<length (hd stacked)]"

text \<open>An included event: the segment with its added column \<^verbatim>\<open>RelativeTime\<close>.\<close>

record event = dataframe +
  RelativeTime :: "real list"

definition tol :: real where
  "tol = 0.05"

text \<open>
  The test \<^verbatim>\<open>(st - pre_duration) < (available_start - tol) or
  (st + effective_post) > (available_end + tol)\<close>; both comparisons are false on the NaN
  bounds of a frame with no rows.
\<close>

definition insufficient :: "dataframe \<Rightarrow> real \<Rightarrow> real \<Rightarrow> bool" where
  "insufficient df lo hi =
     (case (Time_min df, Time_max df) of
        (Some available_start, Some available_end) \<Rightarrow>
          lo < available_start - tol \<or> hi > available_end + tol
      | _ \<Rightarrow> False)"

definition relative_to :: "dataframe \<Rightarrow> real \<Rightarrow> event" where
  "relative_to seg st =
     \<lparr>columns = columns seg, rows = rows seg,
      RelativeTime = map (\<lambda>r. fst r - st) (rows seg)\<rparr>"

text \<open>
  Lines 836--865: the body of the loop over the moments, on the two lists it appends to.
  \<^verbatim>\<open>
  try:
      st = float(start_time[i]); et = float(end_time[i])
  except:
      continue
  if not os.path.exists(csv_filename):
      continue
  try:
      df = pd.read_csv(csv_filename, header=1)
      df.rename(columns={df.columns[0]: "Time"}, inplace=True)
      available_start = df["Time"].min()
      available_end = df["Time"].max()
      if abs(et - available_end) <= tol:
          et = available_end
      if (pre_duration > 0 or post_extra > 0):
          if (st - pre_duration) < (available_start - tol) or (st + effective_post) > (available_end + tol):
              excluded_names.append(ad_name[i])
              continue
      seg = df[(df["Time"] >= (st - pre_duration)) &
               (df["Time"] <= (st + effective_post))].copy()
      seg["RelativeTime"] = seg["Time"] - st
      included_events.append(seg)
  except:
      excluded_names.append(ad_name[i])
  \<close>
  The snapped \<open>et\<close> is bound as the source assigns it; nothing after it reads it.
\<close>

definition line_step ::
  "csv_folder \<Rightarrow> real \<Rightarrow> real \<Rightarrow> real \<Rightarrow> moment \<Rightarrow> event list \<times> string list
     \<Rightarrow> event list \<times> string list" where
  "line_step folder pre_duration post_extra effective_post m acc =
     (case acc of (included_events, excluded_names) \<Rightarrow>
     (case (start_time m, end_time m) of
        (Some st, Some et0) \<Rightarrow>
          (case folder (video_id m) of
             Missing \<Rightarrow> (included_events, excluded_names)
           | Unreadable \<Rightarrow> (included_events, excluded_names @ [ad_name m])
           | Readable df \<Rightarrow>
               let et = snap_end df et0
               in if (pre_duration > 0 \<or> post_extra > 0)
                     \<and> insufficient df (st - pre_duration) (st + effective_post)
                  then (included_events, excluded_names @ [ad_name m])
                  else (included_events
                          @ [relative_to (between df (st - pre_duration) (st + effective_post)) st],
                        excluded_names))
      | _ \<Rightarrow> (included_events, excluded_names)))"

definition line_loop ::
  "csv_folder \<Rightarrow> real \<Rightarrow> real \<Rightarrow> real \<Rightarrow> moment list \<Rightarrow> event list \<times> string list" where
  "line_loop folder pre_duration post_extra effective_post ms =
     fold (line_step folder pre_duration post_extra effective_post) ms ([], [])"

text \<open>
  Lines 870--881, the interpolation loops: for each event, for each canonical measure
  among its columns, \<^verbatim>\<open>interp_data[measure].append(np.interp(common_time, times, values))\<close>.
  The call is outside every handler, so its \<^verbatim>\<open>ValueError\<close> ends the request.
\<close>

fun interp_measures ::
  "real list \<Rightarrow> event \<Rightarrow> string list \<Rightarrow> (string \<Rightarrow> real option list list)
     \<Rightarrow> error + (string \<Rightarrow> real option list list)" where
  "interp_measures common_time seg [] interp_data = Inr interp_data"
| "interp_measures common_time seg (name # names) interp_data =
     (if name \<in> set (columns seg)
      then (case np_interp common_time (RelativeTime seg) (col seg name) of
              Inl e \<Rightarrow> Inl e
            | Inr interp_vals \<Rightarrow>
                interp_measures common_time seg names
                  (interp_data(name := interp_data name @ [interp_vals])))
      else interp_measures common_time seg names interp_data)"

fun interp_events ::
  "real list \<Rightarrow> event list \<Rightarrow> (string \<Rightarrow> real option list list)
     \<Rightarrow> error + (string \<Rightarrow> real option list list)" where
  "interp_events common_time [] interp_data = Inr interp_data"
| "interp_events common_time (seg # segs) interp_data =
     (case interp_measures common_time seg ORDERED_MEASURES interp_data of
        Inl e \<Rightarrow> Inl e
      | Inr interp_data' \<Rightarrow> interp_events common_time segs interp_data')"

text \<open>
  Lines 884--891, the averaging loop: the mean over the stacked arrays of a measure, or
  Python's \<^verbatim>\<open>None\<close> (here \<open>None\<close>) for a measure with no array.
\<close>

definition average_step ::
  "(string \<Rightarrow> real option list list) \<Rightarrow> string \<Rightarrow> (string \<Rightarrow> real option list option)
     \<Rightarrow> (string \<Rightarrow> real option list option)" where
  "average_step interp_data name averaged =
     (if interp_data name \<noteq> []
      then averaged(name := Some (np_mean_axis0 (interp_data name)))
      else averaged(name := None))"

text \<open>\<^verbatim>\<open>int(x)\<close> of a float: truncation towards zero.\<close>

definition py_int :: "real \<Rightarrow> int" where
  "py_int x = (if x \<ge> 0 then \<lfloor>x\<rfloor> else \<lceil>x\<rceil>)"

text \<open>
  Lines 988--1001: the header and one row for each index of the grid.
  \<^verbatim>\<open>
  for i in range(len(common_time)):
      t_ms = int(common_time[i] * 1000)
      row = [query, t_ms]
      for measure in ORDERED_MEASURES:
          if averaged[measure] is not None:
              row.append(averaged[measure][i])
          else:
              row.append("")
  \<close>
\<close>

definition line_csv ::
  "string \<Rightarrow> real list \<Rightarrow> (string \<Rightarrow> real option list option) \<Rightarrow> cell list list" where
  "line_csv query common_time averaged =
     ([CStr ''Query'', CStr ''Time(ms)''] @ map CStr ORDERED_MEASURES) #
     map (\<lambda>i. [CStr query, CInt (py_int (common_time ! i * 1000))]
                @ map (\<lambda>name. case averaged name of
                                 Some mean_vals \<Rightarrow> CFloat (mean_vals ! i)
                               | None \<Rightarrow> CStr [])
                    ORDERED_MEASURES)
       [0..<length common_time]"

record line_result =
  line_averaged :: "string \<Rightarrow> real option list option"
  line_common_time :: "real list"
  line_excluded :: "string list"
  line_rows :: "cell list list"

definition aggregated_line ::
  "csv_folder \<Rightarrow> moment list \<Rightarrow> real \<Rightarrow> real \<Rightarrow> real \<Rightarrow> string \<Rightarrow> error + line_result" where
  "aggregated_line folder ms pre_duration post_extra pure_duration query =
     (let effective_post = pure_duration + post_extra;
          common_time = np_linspace (- pre_duration) effective_post 100
      in case line_loop folder pre_duration post_extra effective_post ms of
           (included_events, excluded_names) \<Rightarrow>
             if included_events = [] then Inl NoValidData
             else (case interp_events common_time included_events (\<lambda>name. []) of
                     Inl e \<Rightarrow> Inl e
                   | Inr interp_data \<Rightarrow>
                       let averaged = fold (average_step interp_data) ORDERED_MEASURES (\<lambda>name. None)
                       in Inr \<lparr>line_averaged = averaged,
                               line_common_time = common_time,
                               line_excluded = excluded_names,
                               line_rows = line_csv query common_time averaged\<rparr>))"

subsection \<open>aggregated\_graphs\<close>

text \<open>
  Lines 799--822: the pure duration of the request, then the mode chosen by
  \<^verbatim>\<open>graph_type\<close>.
\<close>

datatype graphs = LineGraphs line_result | BoxGraphs box_result

definition aggregated_graphs ::
  "string \<Rightarrow> csv_folder \<Rightarrow> moment list \<Rightarrow> real \<Rightarrow> real \<Rightarrow> string \<Rightarrow> error + graphs" where
  "aggregated_graphs graph_type folder ms pre_duration post_extra query =
     (let pure_duration = pure_duration_of ms
      in if graph_type = ''line''
         then (case aggregated_line folder ms pre_duration post_extra pure_duration query of
                 Inl e \<Rightarrow> Inl e
               | Inr r \<Rightarrow> Inr (LineGraphs r))
         else Inr (BoxGraphs (aggregated_box folder ms query)))"

subsection \<open>Notions used to state the properties\<close>

text \<open>
  The values of one event's measure interpolated onto the grid, and the events on which
  the interpolation call raises: no sample in the window, and a canonical measure among
  the columns (so that \<^verbatim>\<open>np.interp\<close> is called at all).
\<close>

definition interp_row :: "real list \<Rightarrow> event \<Rightarrow> string \<Rightarrow> real option list" where
  "interp_row common_time seg name =
     map (\<lambda>x. interp_at x (zip (RelativeTime seg) (col seg name))) common_time"

definition interp_raises :: "event \<Rightarrow> bool" where
  "interp_raises seg \<longleftrightarrow>
     RelativeTime seg = [] \<and> (\<exists>name \<in> set ORDERED_MEASURES. name \<in> set (columns seg))"

text \<open>
  The included events that have a measure among their columns, and the mean over them
  of their values interpolated at a point of relative time.
\<close>

definition contributing :: "string \<Rightarrow> event list \<Rightarrow> event list" where
  "contributing name evs = filter (\<lambda>seg. name \<in> set (columns seg)) evs"

definition mean_at :: "string \<Rightarrow> event list \<Rightarrow> real \<Rightarrow> real option" where
  "mean_at name evs x =
     nan_mean (map (\<lambda>seg. interp_at x (zip (RelativeTime seg) (col seg name)))
                 (contributing name evs))"

definition mean_curve :: "real list \<Rightarrow> event list \<Rightarrow> string \<Rightarrow> real option list option" where
  "mean_curve common_time evs name =
     (if name \<in> set ORDERED_MEASURES \<and> contributing name evs \<noteq> []
      then Some (map (mean_at name evs) common_time) else None)"

text \<open>
  What one moment adds to the pooled values of a measure in box mode: the non-missing
  values of the measure in its segment, when both times parse, the file is read, and the
  measure is a canonical one among the columns of the file.
\<close>

definition contribution :: "csv_folder \<Rightarrow> moment \<Rightarrow> string \<Rightarrow> real list" where
  "contribution folder m name =
     (case (start_time m, end_time m, folder (video_id m)) of
        (Some st, Some et, Readable df) \<Rightarrow>
          if name \<in> set ORDERED_MEASURES \<and> name \<in> set (columns df)
          then dropna (col (segment df st et) name) else []
      | _ \<Rightarrow> [])"

subsection \<open>Example data\<close>

text \<open>
  Frames with the single measure column \<^verbatim>\<open>Engagement\<close>, given by their (time, value)
  samples, and a moment with parsed times whose label is its video identifier.
\<close>

definition example_frame :: "(real \<times> real) list \<Rightarrow> dataframe" where
  "example_frame ps =
     \<lparr>columns = [''Engagement''],
      rows = map (\<lambda>(t, v). (t, (\<lambda>name. None)(''Engagement'' := Some v))) ps\<rparr>"

definition example_moment :: "string \<Rightarrow> real \<Rightarrow> real \<Rightarrow> moment" where
  "example_moment vid st et =
     \<lparr>video_id = vid, start_time = Some st, end_time = Some et, ad_name = vid\<rparr>"

definition example_folder :: csv_folder where
  "example_folder =
     (\<lambda>vid. Missing)
       (''A'' := Readable (example_frame [(0, 0.2), (1, 0.4), (2, 0.6)]),
        ''B'' := Readable (example_frame [(0, 0.3), (1, 0.5), (2, 0.7)]),
        ''short'' := Readable (example_frame [(0, 0.3), (1, 0.5)]),
        ''broken'' := Unreadable)"

text \<open>
  The two-moment request of the specification's end-to-end example: both moments from 0
  to 2, no pre and no post duration, hence a pure duration of 2.
\<close>

definition example_line :: "error + line_result" where
  "example_line =
     aggregated_line example_folder
       [example_moment ''A'' 0 2, example_moment ''B'' 0 2] 0 0 2 ''q''"

section \<open>Properties\<close>

subsection \<open>End-snapping\<close>





subsection \<open>The duration and the grid\<close>

lemma py_min_Min:
  assumes "xs \<noteq> []"
  shows "py_min xs = Min (set xs)"
proof (cases xs)
  case Nil
  with assms show ?thesis by simp
next
  case (Cons a list)
  then show ?thesis using Min.set_eq_fold [of a list] by (simp add: py_min_def)
qed

lemma in_durations:
  "d \<in> set (durations ms) \<longleftrightarrow>
     (\<exists>m \<in> set ms. \<exists>st et. start_time m = Some st \<and> end_time m = Some et \<and> d = et - st)"
proof (induction ms)
  case Nil
  show ?case by (simp add: durations_def)
next
  case (Cons a ms)
  have "durations (a # ms) =
          (case (start_time a, end_time a) of (Some st, Some et) \<Rightarrow> [et - st] | _ \<Rightarrow> []) @ durations ms"
    by (simp add: durations_def)
  with Cons show ?case
    by (cases "start_time a"; cases "end_time a") auto
qed

lemma length_np_linspace: "length (np_linspace start stop num) = num"
  by (simp add: np_linspace_def Let_def)

lemma np_linspace_nth:
  assumes "i < num" and "1 < num"
  shows "np_linspace start stop num ! i = start + real i * (stop - start) / real (num - 1)"
proof (cases "i = num - 1")
  case True
  with assms show ?thesis by (simp add: np_linspace_def Let_def)
next
  case False
  with assms show ?thesis by (simp add: np_linspace_def Let_def)
qed

lemma np_linspace_ends:
  assumes "1 < num"
  shows "hd (np_linspace start stop num) = start" and "last (np_linspace start stop num) = stop"
proof -
  have ne: "np_linspace start stop num \<noteq> []"
    using assms length_np_linspace [of start stop num] by auto
  show "hd (np_linspace start stop num) = start"
    using np_linspace_nth [of 0 num start stop] assms ne by (simp add: hd_conv_nth)
  show "last (np_linspace start stop num) = stop"
    using np_linspace_nth [of "num - 1" num start stop] assms ne
    by (simp add: last_conv_nth length_np_linspace)
qed

lemma np_linspace_within:
  assumes "1 < num" and "start \<le> stop" and "t \<in> set (np_linspace start stop num)"
  shows "start \<le> t \<and> t \<le> stop"
proof -
  from assms(3) obtain i where i: "i < num" and t: "t = np_linspace start stop num ! i"
    by (auto simp: in_set_conv_nth length_np_linspace)
  have t': "t = start + real i * (stop - start) / real (num - 1)"
    using t np_linspace_nth [OF i assms(1)] by simp
  have pos: "0 < real (num - 1)" using assms(1) by simp
  have "real i * (stop - start) \<le> real (num - 1) * (stop - start)"
    using i assms(2) by (intro mult_right_mono) auto
  then have up: "real i * (stop - start) / real (num - 1) \<le> stop - start"
    using pos by (simp add: pos_divide_le_eq mult.commute)
  have "0 \<le> real i * (stop - start) / real (num - 1)"
    using assms(2) by simp
  with up t' show ?thesis by simp
qed

subsection \<open>The loops of aggregated\_line\<close>

lemma distinct_ORDERED_MEASURES: "distinct ORDERED_MEASURES"
  by (simp add: ORDERED_MEASURES_def)

lemma interp_measures_char:
  assumes "distinct names"
  shows "interp_measures ct seg names d =
     (if RelativeTime seg = [] \<and> (\<exists>n \<in> set names. n \<in> set (columns seg)) then Inl ValueError
      else Inr (\<lambda>k. if k \<in> set names \<and> k \<in> set (columns seg)
                     then d k @ [interp_row ct seg k] else d k))"
  using assms
proof (induction names arbitrary: d)
  case Nil
  show ?case by simp
next
  case (Cons name names)
  then have fresh: "name \<notin> set names" and dist: "distinct names" by simp_all
  show ?case
  proof (cases "name \<in> set (columns seg)")
    case False
    then show ?thesis using Cons.IH [OF dist, of d] by (auto simp: fun_eq_iff)
  next
    case True
    show ?thesis
    proof (cases "RelativeTime seg = []")
      case True
      with \<open>name \<in> set (columns seg)\<close> show ?thesis by (simp add: np_interp_def)
    next
      case False
      with True have step: "interp_measures ct seg (name # names) d =
          interp_measures ct seg names (d(name := d name @ [interp_row ct seg name]))"
        by (simp add: np_interp_def interp_row_def)
      show ?thesis
        unfolding step Cons.IH [OF dist]
        using True False fresh by (auto simp: fun_eq_iff)
    qed
  qed
qed

lemma interp_events_char:
  "interp_events ct segs d =
     (if \<exists>seg \<in> set segs. interp_raises seg then Inl ValueError
      else Inr (\<lambda>k. if k \<in> set ORDERED_MEASURES
                     then d k @ map (\<lambda>seg. interp_row ct seg k) (filter (\<lambda>seg. k \<in> set (columns seg)) segs)
                     else d k))"
proof (induction segs arbitrary: d)
  case Nil
  show ?case by (simp add: fun_eq_iff)
next
  case (Cons seg segs)
  show ?case
  proof (cases "interp_raises seg")
    case True
    then show ?thesis
      by (simp add: interp_measures_char [OF distinct_ORDERED_MEASURES] interp_raises_def)
  next
    case False
    then have step: "interp_measures ct seg ORDERED_MEASURES d =
        Inr (\<lambda>k. if k \<in> set ORDERED_MEASURES \<and> k \<in> set (columns seg)
                  then d k @ [interp_row ct seg k] else d k)"
      by (simp add: interp_measures_char [OF distinct_ORDERED_MEASURES] interp_raises_def)
    show ?thesis
      using False by (simp add: step Cons.IH fun_eq_iff)
  qed
qed

lemma fold_average_step:
  assumes "distinct names"
  shows "fold (average_step d) names a =
     (\<lambda>k. if k \<in> set names then (if d k \<noteq> [] then Some (np_mean_axis0 (d k)) else None) else a k)"
  using assms
proof (induction names arbitrary: a)
  case Nil
  show ?case by simp
next
  case (Cons name names)
  then show ?case by (auto simp: average_step_def fun_eq_iff)
qed

lemma length_interp_row: "length (interp_row ct seg k) = length ct"
  by (simp add: interp_row_def)

lemma np_mean_axis0_rows:
  assumes "c \<noteq> []"
  shows "np_mean_axis0 (map (\<lambda>seg. interp_row ct seg k) c) =
         map (\<lambda>x. nan_mean (map (\<lambda>seg. interp_at x (zip (RelativeTime seg) (col seg k))) c)) ct"
proof -
  have len: "length (hd (map (\<lambda>seg. interp_row ct seg k) c)) = length ct"
    using assms by (cases c) (simp_all add: length_interp_row)
  show ?thesis
    unfolding np_mean_axis0_def len
    by (rule nth_equalityI) (simp_all add: interp_row_def o_def)
qed

lemma line_step_acc:
  "line_step folder pre post ep m (inc, exc) =
     (inc @ fst (line_step folder pre post ep m ([], [])),
      exc @ snd (line_step folder pre post ep m ([], [])))"
  by (simp add: line_step_def Let_def split: option.splits csv_file.splits)

lemma fold_line_step_acc:
  "fold (line_step folder pre post ep) ms (inc, exc) =
     (inc @ fst (line_loop folder pre post ep ms), exc @ snd (line_loop folder pre post ep ms))"
proof (induction ms arbitrary: inc exc)
  case Nil
  show ?case by (simp add: line_loop_def)
next
  case (Cons m ms)
  obtain i1 e1 where one: "line_step folder pre post ep m ([], []) = (i1, e1)"
    by (cases "line_step folder pre post ep m ([], [])")
  have "fold (line_step folder pre post ep) (m # ms) (inc, exc)
        = fold (line_step folder pre post ep) ms (inc @ i1, exc @ e1)"
    using line_step_acc [of folder pre post ep m inc exc] one by simp
  also have "\<dots> = ((inc @ i1) @ fst (line_loop folder pre post ep ms),
                    (exc @ e1) @ snd (line_loop folder pre post ep ms))"
    by (rule Cons.IH)
  finally have left: "fold (line_step folder pre post ep) (m # ms) (inc, exc)
        = (inc @ i1 @ fst (line_loop folder pre post ep ms),
           exc @ e1 @ snd (line_loop folder pre post ep ms))" by simp
  have "line_loop folder pre post ep (m # ms)
        = fold (line_step folder pre post ep) ms (i1, e1)"
    by (simp add: line_loop_def one)
  also have "\<dots> = (i1 @ fst (line_loop folder pre post ep ms), e1 @ snd (line_loop folder pre post ep ms))"
    by (rule Cons.IH)
  finally show ?case using left by simp
qed

lemma line_loop_Cons:
  "line_loop folder pre post ep (m # ms) =
     (fst (line_step folder pre post ep m ([], [])) @ fst (line_loop folder pre post ep ms),
      snd (line_step folder pre post ep m ([], [])) @ snd (line_loop folder pre post ep ms))"
proof -
  obtain i1 e1 where one: "line_step folder pre post ep m ([], []) = (i1, e1)"
    by (cases "line_step folder pre post ep m ([], [])")
  have "line_loop folder pre post ep (m # ms) = fold (line_step folder pre post ep) ms (i1, e1)"
    by (simp add: line_loop_def one)
  then show ?thesis by (simp add: fold_line_step_acc one)
qed

lemma line_loop_Nil: "line_loop folder pre post ep [] = ([], [])"
  by (simp add: line_loop_def)

lemma line_loop_append:
  "line_loop folder pre post ep (xs @ ys) =
     (fst (line_loop folder pre post ep xs) @ fst (line_loop folder pre post ep ys),
      snd (line_loop folder pre post ep xs) @ snd (line_loop folder pre post ep ys))"
  by (induction xs) (simp_all add: line_loop_Cons line_loop_Nil)

lemma aggregated_line_char:
  "aggregated_line folder ms pre post pd q =
     (let ct = np_linspace (- pre) (pd + post) 100;
          evs = fst (line_loop folder pre post (pd + post) ms)
      in if evs = [] then Inl NoValidData
         else if \<exists>seg \<in> set evs. interp_raises seg then Inl ValueError
         else Inr \<lparr>line_averaged = mean_curve ct evs,
                  line_common_time = ct,
                  line_excluded = snd (line_loop folder pre post (pd + post) ms),
                  line_rows = line_csv q ct (mean_curve ct evs)\<rparr>)"
proof -
  obtain evs exc where loop: "line_loop folder pre post (pd + post) ms = (evs, exc)"
    by (cases "line_loop folder pre post (pd + post) ms")
  define ct where "ct = np_linspace (- pre) (pd + post) 100"
  have avg: "fold (average_step
                 (\<lambda>k. if k \<in> set ORDERED_MEASURES
                      then [] @ map (\<lambda>seg. interp_row ct seg k) (filter (\<lambda>seg. k \<in> set (columns seg)) evs)
                      else [])) ORDERED_MEASURES (\<lambda>name. None)
             = mean_curve ct evs"
    unfolding fold_average_step [OF distinct_ORDERED_MEASURES]
    by (auto simp: fun_eq_iff mean_curve_def contributing_def mean_at_def np_mean_axis0_rows)
  show ?thesis
    unfolding aggregated_line_def Let_def loop ct_def [symmetric]
    by (simp add: interp_events_char avg)
qed

subsection \<open>The shared grid\<close>

lemma line_step_parsed:
  assumes "fst (line_step folder pre post ep m ([], [])) \<noteq> []"
  shows "\<exists>st et. start_time m = Some st \<and> end_time m = Some et"
  using assms by (cases "start_time m"; cases "end_time m") (simp_all add: line_step_def)

lemma included_durations:
  assumes "fst (line_loop folder pre post ep ms) \<noteq> []"
  shows "durations ms \<noteq> []"
  using assms
proof (induction ms)
  case Nil
  then show ?case by (simp add: line_loop_Nil)
next
  case (Cons m ms)
  show ?case
  proof (cases "fst (line_step folder pre post ep m ([], [])) = []")
    case True
    with Cons have "durations ms \<noteq> []" by (simp add: line_loop_Cons)
    then show ?thesis by (simp add: durations_def)
  next
    case False
    from line_step_parsed [OF this] show ?thesis by (auto simp: durations_def)
  qed
qed

lemma aggregated_line_Inr:
  assumes "aggregated_line folder ms pre post pd q = Inr r"
  shows "fst (line_loop folder pre post (pd + post) ms) \<noteq> []"
    and "\<not> (\<exists>seg \<in> set (fst (line_loop folder pre post (pd + post) ms)). interp_raises seg)"
    and "r = \<lparr>line_averaged = mean_curve (np_linspace (- pre) (pd + post) 100) (fst (line_loop folder pre post (pd + post) ms)),
                  line_common_time = np_linspace (- pre) (pd + post) 100,
                  line_excluded = snd (line_loop folder pre post (pd + post) ms),
                  line_rows = line_csv q (np_linspace (- pre) (pd + post) 100)
                     (mean_curve (np_linspace (- pre) (pd + post) 100) (fst (line_loop folder pre post (pd + post) ms)))\<rparr>"
  using assms unfolding aggregated_line_char Let_def by (auto split: if_splits)

lemma aggregated_graphs_line:
  "aggregated_graphs ''line'' folder ms pre post q = Inr (LineGraphs r) \<longleftrightarrow>
   aggregated_line folder ms pre post (pure_duration_of ms) q = Inr r"
  by (auto simp: aggregated_graphs_def split: sum.splits)

text \<open>
  Claim C4. When the line mode answers with graphs, some moment has parsed times, the
  pure duration is the least \<open>end - start\<close> over the moments whose times parse, and the
  grid is \<^verbatim>\<open>np.linspace\<close> from \<open>- pre_duration\<close> to \<open>pure_duration + post_extra\<close>: 100
  points, the \<open>i\<close>-th at \<open>i / 99\<close> of the way, consecutive points one 99th of the span
  apart, the first at \<open>- pre_duration\<close> and the last at the effective post duration.
  With no pre and no post duration the grid runs from 0 to the pure duration, and stays
  within these bounds when the pure duration is not negative.
\<close>

theorem shared_grid:
  assumes "aggregated_graphs ''line'' folder ms pre_duration post_extra query = Inr (LineGraphs r)"
  shows "durations ms \<noteq> [] \<and> pure_duration_of ms = Min (set (durations ms))
       \<and> (\<forall>d. d \<in> set (durations ms) \<longleftrightarrow>
              (\<exists>m \<in> set ms. \<exists>st et. start_time m = Some st \<and> end_time m = Some et \<and> d = et - st))
       \<and> line_common_time r = np_linspace (- pre_duration) (pure_duration_of ms + post_extra) 100
       \<and> length (line_common_time r) = 100
       \<and> (\<forall>i<100. line_common_time r ! i =
              - pre_duration + real i * ((pure_duration_of ms + post_extra) - (- pre_duration)) / 99)
       \<and> (\<forall>i<99. line_common_time r ! Suc i - line_common_time r ! i =
              ((pure_duration_of ms + post_extra) - (- pre_duration)) / 99)
       \<and> hd (line_common_time r) = - pre_duration
       \<and> last (line_common_time r) = pure_duration_of ms + post_extra
       \<and> (pre_duration = 0 \<and> post_extra = 0 \<longrightarrow>
            hd (line_common_time r) = 0 \<and> last (line_common_time r) = pure_duration_of ms
            \<and> (0 \<le> pure_duration_of ms \<longrightarrow>
                 (\<forall>t \<in> set (line_common_time r). 0 \<le> t \<and> t \<le> pure_duration_of ms)))"
proof -
  let ?pd = "pure_duration_of ms"
  from assms have line: "aggregated_line folder ms pre_duration post_extra ?pd query = Inr r"
    by (simp add: aggregated_graphs_line)
  from aggregated_line_Inr(1) [OF line] have ne: "durations ms \<noteq> []"
    by (rule included_durations)
  then have pd: "?pd = Min (set (durations ms))"
    by (simp add: pure_duration_of_def py_min_Min)
  have grid: "line_common_time r = np_linspace (- pre_duration) (?pd + post_extra) 100"
    using aggregated_line_Inr(3) [OF line] by simp
  have nth: "\<forall>i<100. line_common_time r ! i =
              - pre_duration + real i * ((?pd + post_extra) - (- pre_duration)) / 99"
    unfolding grid by (simp add: np_linspace_nth)
  have spacing: "\<forall>i<99. line_common_time r ! Suc i - line_common_time r ! i =
              ((?pd + post_extra) - (- pre_duration)) / 99"
  proof (intro allI impI)
    fix i :: nat
    assume "i < 99"
    then have "Suc i < 100" and "i < 100" by simp_all
    with nth have "line_common_time r ! Suc i =
              - pre_duration + real (Suc i) * ((?pd + post_extra) - (- pre_duration)) / 99"
      and "line_common_time r ! i =
              - pre_duration + real i * ((?pd + post_extra) - (- pre_duration)) / 99"
      by blast+
    then show "line_common_time r ! Suc i - line_common_time r ! i =
              ((?pd + post_extra) - (- pre_duration)) / 99"
      by (simp add: field_simps)
  qed
  have ends: "hd (line_common_time r) = - pre_duration" "last (line_common_time r) = ?pd + post_extra"
    unfolding grid by (simp_all add: np_linspace_ends)
  have within: "\<forall>t \<in> set (line_common_time r). 0 \<le> t \<and> t \<le> ?pd"
    if "pre_duration = 0" "post_extra = 0" "0 \<le> ?pd"
  proof
    fix t assume "t \<in> set (line_common_time r)"
    with grid that have "t \<in> set (np_linspace 0 ?pd 100)" by simp
    with that(3) show "0 \<le> t \<and> t \<le> ?pd" by (intro np_linspace_within [of 100]) simp_all
  qed
  have len: "length (line_common_time r) = 100"
    unfolding grid by (rule length_np_linspace)
  have special: "pre_duration = 0 \<and> post_extra = 0 \<longrightarrow>
            hd (line_common_time r) = 0 \<and> last (line_common_time r) = ?pd
            \<and> (0 \<le> ?pd \<longrightarrow> (\<forall>t \<in> set (line_common_time r). 0 \<le> t \<and> t \<le> ?pd))"
  proof (intro impI conjI)
    assume z: "pre_duration = 0 \<and> post_extra = 0"
    then show "hd (line_common_time r) = 0" "last (line_common_time r) = ?pd"
      using ends by simp_all
    assume "0 \<le> ?pd"
    with z show "\<forall>t \<in> set (line_common_time r). 0 \<le> t \<and> t \<le> ?pd"
      by (intro within) simp_all
  qed
  have dur: "\<forall>d. d \<in> set (durations ms) \<longleftrightarrow>
              (\<exists>m \<in> set ms. \<exists>st et. start_time m = Some st \<and> end_time m = Some et \<and> d = et - st)"
    by (simp add: in_durations)
  show ?thesis by (intro conjI ne pd dur grid len nth spacing ends special)
qed

lemma example_line_loop:
  "line_loop example_folder 0 0 ep [example_moment ''A'' 0 e1, example_moment ''B'' 0 e2] =
     ([relative_to (between (example_frame [(0, 0.2), (1, 0.4), (2, 0.6)]) 0 ep) 0,
       relative_to (between (example_frame [(0, 0.3), (1, 0.5), (2, 0.7)]) 0 ep) 0], [])"
  by (simp add: line_loop_def line_step_def example_folder_def example_moment_def)

lemma example_not_raising:
  assumes "0 \<le> ep"
  shows "\<not> interp_raises (relative_to (between (example_frame ((0, v) # ps)) 0 ep) 0)"
  using assms by (simp add: interp_raises_def relative_to_def between_def example_frame_def)

lemma aggregated_line_succeeds:
  assumes "fst (line_loop folder pre post (pd + post) ms) \<noteq> []"
    and "\<forall>seg \<in> set (fst (line_loop folder pre post (pd + post) ms)). \<not> interp_raises seg"
  shows "\<exists>r. aggregated_line folder ms pre post pd q = Inr r"
  using assms by (simp add: aggregated_line_char Let_def)

lemma example_line_result:
  assumes "0 \<le> pd"
  shows "\<exists>r. aggregated_line example_folder
               [example_moment ''A'' 0 e1, example_moment ''B'' 0 e2] 0 0 pd q = Inr r"
proof (rule aggregated_line_succeeds)
  show "fst (line_loop example_folder 0 0 (pd + 0)
               [example_moment ''A'' 0 e1, example_moment ''B'' 0 e2]) \<noteq> []"
    by (simp add: example_line_loop)
  show "\<forall>seg \<in> set (fst (line_loop example_folder 0 0 (pd + 0)
               [example_moment ''A'' 0 e1, example_moment ''B'' 0 e2])). \<not> interp_raises seg"
    using assms by (simp add: example_line_loop example_not_raising)
qed

theorem shared_grid_witness:
  "\<exists>r. aggregated_graphs ''line'' example_folder
          [example_moment ''A'' 0 2, example_moment ''B'' 0 (3 / 2)] 0 0 ''q'' = Inr (LineGraphs r)
       \<and> pure_duration_of [example_moment ''A'' 0 2, example_moment ''B'' 0 (3 / 2)] = 3 / 2
       \<and> length (line_common_time r) = 100
       \<and> line_common_time r ! 0 = 0
       \<and> line_common_time r ! 33 = 1 / 2
       \<and> line_common_time r ! 99 = 3 / 2"
proof -
  let ?ms = "[example_moment ''A'' 0 2, example_moment ''B'' 0 (3 / 2)]"
  have pd: "pure_duration_of ?ms = 3 / 2"
    by (simp add: pure_duration_of_def durations_def py_min_def example_moment_def)
  obtain r where line: "aggregated_line example_folder ?ms 0 0 (3 / 2) ''q'' = Inr r"
    using example_line_result [of "3 / 2" 2 "3 / 2" "''q''"] by auto
  then have g: "aggregated_graphs ''line'' example_folder ?ms 0 0 ''q'' = Inr (LineGraphs r)"
    by (simp add: aggregated_graphs_line pd)
  from shared_grid [OF g]
  have len: "length (line_common_time r) = 100"
    and nth: "\<forall>i<100. line_common_time r ! i =
              - 0 + real i * ((pure_duration_of ?ms + 0) - (- 0)) / 99"
    by blast+
  have "line_common_time r ! 0 = 0" "line_common_time r ! 33 = 1 / 2"
    "line_common_time r ! 99 = 3 / 2"
    using nth [rule_format, of 0] nth [rule_format, of 33] nth [rule_format, of 99]
    by (simp_all add: pd)
  with g pd len show ?thesis by blast
qed

subsection \<open>The time column of the aligned CSV\<close>









lemma example_line_Inr:
  "example_line =
     Inr \<lparr>line_averaged =
             mean_curve (np_linspace 0 2 100)
               [relative_to (between (example_frame [(0, 0.2), (1, 0.4), (2, 0.6)]) 0 2) 0,
                relative_to (between (example_frame [(0, 0.3), (1, 0.5), (2, 0.7)]) 0 2) 0],
           line_common_time = np_linspace 0 2 100,
           line_excluded = [],
           line_rows =
             line_csv ''q'' (np_linspace 0 2 100)
               (mean_curve (np_linspace 0 2 100)
                 [relative_to (between (example_frame [(0, 0.2), (1, 0.4), (2, 0.6)]) 0 2) 0,
                  relative_to (between (example_frame [(0, 0.3), (1, 0.5), (2, 0.7)]) 0 2) 0])\<rparr>"
  unfolding example_line_def aggregated_line_char Let_def
  by (simp add: example_line_loop example_not_raising)




subsection \<open>Pooling in box mode\<close>

lemma fold_extend:
  assumes "distinct names"
  shows "fold (\<lambda>name bd. if P name then bd(name := bd name @ f name) else bd) names bd =
         (\<lambda>k. if k \<in> set names \<and> P k then bd k @ f k else bd k)"
  using assms
proof (induction names arbitrary: bd)
  case Nil
  show ?case by simp
next
  case (Cons name names)
  then show ?case by (auto simp: fun_eq_iff)
qed

lemma dropna_empty_col:
  assumes "rows seg = []"
  shows "dropna (col seg name) = []"
  using assms by (simp add: dropna_def col_def)

lemma box_step_contribution:
  "box_step folder m box_data = (\<lambda>k. box_data k @ contribution folder m k)"
proof (cases "start_time m")
  case None
  then show ?thesis by (simp add: box_step_def contribution_def)
next
  case (Some st)
  note st = this
  show ?thesis
  proof (cases "end_time m")
    case None
    with st show ?thesis by (simp add: box_step_def contribution_def)
  next
    case (Some et)
    note et = this
    show ?thesis
    proof (cases "folder (video_id m)")
      case Missing
      with st et show ?thesis by (simp add: box_step_def contribution_def)
    next
      case Unreadable
      with st et show ?thesis by (simp add: box_step_def contribution_def)
    next
      case (Readable df)
      show ?thesis
      proof (cases "rows (segment df st et) = []")
        case True
        with st et Readable show ?thesis
          by (simp add: box_step_def contribution_def dropna_empty_col fun_eq_iff)
      next
        case False
        with st et Readable show ?thesis
          by (simp add: box_step_def contribution_def Let_def
                fold_extend [OF distinct_ORDERED_MEASURES] fun_eq_iff)
      qed
    qed
  qed
qed

lemma fold_box_step:
  "fold (box_step folder) ms box_data =
     (\<lambda>k. box_data k @ concat (map (\<lambda>m. contribution folder m k) ms))"
  by (induction ms arbitrary: box_data) (simp_all add: box_step_contribution fun_eq_iff)

lemma box_data_pooled:
  "box_data_of (aggregated_box folder ms q) name = concat (map (\<lambda>m. contribution folder m name) ms)"
  by (simp add: aggregated_box_def Let_def fold_box_step)

lemma mset_concat_map:
  "mset (concat (map f xs)) = (\<Sum>x \<in># mset xs. mset (f x))"
  by (induction xs) simp_all

lemma box_data_mset:
  assumes "mset ms' = mset ms"
  shows "mset (box_data_of (aggregated_box folder ms' q) name)
       = mset (box_data_of (aggregated_box folder ms q) name)"
  by (simp add: box_data_pooled mset_concat_map assms)

lemma box_csv_mset:
  assumes "\<forall>k. mset (b' k) = mset (b k)"
  shows "hd (box_csv q b') = hd (box_csv q b)"
    and "map mset (box_csv q b') = map mset (box_csv q b)"
    and "map (take 2) (box_csv q b') = map (take 2) (box_csv q b)"
proof -
  have len: "length (b' k) = length (b k)" for k
    using assms by (metis size_mset)
  then have ne: "(b' k = []) = (b k = [])" for k
    by (metis length_0_conv)
  have m: "mset (b' k) = mset (b k)" for k
    using assms by simp
  show "hd (box_csv q b') = hd (box_csv q b)"
    by (simp add: box_csv_def Let_def len ne)
  show "map mset (box_csv q b') = map mset (box_csv q b)"
    by (simp add: box_csv_def Let_def len ne m)
  show "map (take 2) (box_csv q b') = map (take 2) (box_csv q b)"
    by (simp add: box_csv_def Let_def len ne)
qed

text \<open>
  Claim C7, as amended. Reordering the moments of a box request leaves, for every
  measure, the pooled values the same as a multiset. The CSV then has the same header
  and the same measure rows in the same order, each row with the same cells up to the
  order of the values in it.
\<close>

theorem box_order:
  assumes "mset ms' = mset ms"
  shows "(\<forall>name. mset (box_data_of (aggregated_box folder ms' q) name)
                = mset (box_data_of (aggregated_box folder ms q) name))
       \<and> hd (box_rows (aggregated_box folder ms' q)) = hd (box_rows (aggregated_box folder ms q))
       \<and> map (take 2) (box_rows (aggregated_box folder ms' q))
           = map (take 2) (box_rows (aggregated_box folder ms q))
       \<and> map mset (box_rows (aggregated_box folder ms' q))
           = map mset (box_rows (aggregated_box folder ms q))"
proof -
  have pooled: "\<forall>name. mset (box_data_of (aggregated_box folder ms' q) name)
                = mset (box_data_of (aggregated_box folder ms q) name)"
    by (intro allI box_data_mset assms)
  have rows: "box_rows (aggregated_box folder xs q) = box_csv q (box_data_of (aggregated_box folder xs q))"
    for xs by (simp add: aggregated_box_def Let_def)
  show ?thesis
    unfolding rows by (intro conjI pooled box_csv_mset [OF pooled])
qed

lemma dropna_simps:
  "dropna [] = []"
  "dropna (Some x # vs) = x # dropna vs"
  "dropna (None # vs) = dropna vs"
  by (simp_all add: dropna_def)

lemma example_contribution:
  "contribution example_folder (example_moment ''A'' 0 1) ''Engagement'' = [0.2, 0.4]"
  "contribution example_folder (example_moment ''B'' 2 2) ''Engagement'' = [0.7]"
  by (simp_all add: contribution_def example_folder_def example_moment_def example_frame_def
        segment_def snap_end_def Time_max_def between_def col_def dropna_simps ORDERED_MEASURES_def)


lemma example_box_data:
  "box_data_of (aggregated_box example_folder
      [example_moment ''A'' 0 1, example_moment ''B'' 2 2] ''q'') ''Engagement'' = [0.2, 0.4, 0.7]"
  "box_data_of (aggregated_box example_folder
      [example_moment ''B'' 2 2, example_moment ''A'' 0 1] ''q'') ''Engagement'' = [0.7, 0.2, 0.4]"
  by (simp_all add: box_data_pooled example_contribution)

theorem box_order_witness:
  "mset [example_moment ''B'' 2 2, example_moment ''A'' 0 1]
     = mset [example_moment ''A'' 0 1, example_moment ''B'' 2 2]
   \<and> mset (box_data_of (aggregated_box example_folder
        [example_moment ''B'' 2 2, example_moment ''A'' 0 1] ''q'') ''Engagement'')
     = {#0.2, 0.4, 0.7#}"
proof -
  have perm: "mset [example_moment ''B'' 2 2, example_moment ''A'' 0 1]
     = mset [example_moment ''A'' 0 1, example_moment ''B'' 2 2]"
    by simp
  from box_order [OF perm, of example_folder "''q''", THEN conjunct1, rule_format, of "''Engagement''"]
  have "mset (box_data_of (aggregated_box example_folder
        [example_moment ''B'' 2 2, example_moment ''A'' 0 1] ''q'') ''Engagement'')
     = mset (box_data_of (aggregated_box example_folder
        [example_moment ''A'' 0 1, example_moment ''B'' 2 2] ''q'') ''Engagement'')" .
  also have "\<dots> = {#0.2, 0.4, 0.7#}"
    by (simp add: example_box_data(1))
  finally show ?thesis using perm by blast
qed

theorem box_order_counterexample:
  "box_data_of (aggregated_box example_folder
      [example_moment ''A'' 0 1, example_moment ''B'' 2 2] ''q'') ''Engagement'' = [0.2, 0.4, 0.7]
   \<and> box_data_of (aggregated_box example_folder
      [example_moment ''B'' 2 2, example_moment ''A'' 0 1] ''q'') ''Engagement'' = [0.7, 0.2, 0.4]
   \<and> aggregated_box example_folder [example_moment ''A'' 0 1, example_moment ''B'' 2 2] ''q''
     \<noteq> aggregated_box example_folder [example_moment ''B'' 2 2, example_moment ''A'' 0 1] ''q''"
proof -
  have "box_data_of (aggregated_box example_folder
          [example_moment ''A'' 0 1, example_moment ''B'' 2 2] ''q'') ''Engagement''
      \<noteq> box_data_of (aggregated_box example_folder
          [example_moment ''B'' 2 2, example_moment ''A'' 0 1] ''q'') ''Engagement''"
    unfolding example_box_data by simp
  then have "aggregated_box example_folder [example_moment ''A'' 0 1, example_moment ''B'' 2 2] ''q''
     \<noteq> aggregated_box example_folder [example_moment ''B'' 2 2, example_moment ''A'' 0 1] ''q''"
    by (rule contrapos_nn) simp
  with example_box_data show ?thesis by simp
qed

subsection \<open>Pooled values and the statistics of a segment\<close>





lemma series_std_single:
  assumes "length (dropna vs) = 1"
  shows "series_std vs = None"
  using assms by (simp add: series_std_def)










subsection \<open>Moments that add nothing\<close>

lemma line_loop_insert:
  "line_loop folder pre post ep (xs @ m # ys) =
     (fst (line_loop folder pre post ep xs) @ fst (line_step folder pre post ep m ([], []))
        @ fst (line_loop folder pre post ep ys),
      snd (line_loop folder pre post ep xs) @ snd (line_step folder pre post ep m ([], []))
        @ snd (line_loop folder pre post ep ys))"
  by (simp add: line_loop_append line_loop_Cons)

lemma aggregated_line_events:
  assumes "fst (line_loop folder' pre post (pd + post) ms')
         = fst (line_loop folder pre post (pd + post) ms)"
  shows "aggregated_line folder' ms' pre post pd q =
     (case aggregated_line folder ms pre post pd q of
        Inl e \<Rightarrow> Inl e
      | Inr r \<Rightarrow> Inr (r\<lparr>line_excluded := snd (line_loop folder' pre post (pd + post) ms')\<rparr>))"
  by (simp add: aggregated_line_char Let_def assms)

lemma line_step_outcome:
  "line_step folder pre post ep m ([], []) =
     (case (start_time m, end_time m) of
        (Some st, Some et) \<Rightarrow>
          (case folder (video_id m) of
             Missing \<Rightarrow> ([], [])
           | Unreadable \<Rightarrow> ([], [ad_name m])
           | Readable df \<Rightarrow>
               if (pre > 0 \<or> post > 0) \<and> insufficient df (st - pre) (st + ep)
               then ([], [ad_name m])
               else ([relative_to (between df (st - pre) (st + ep)) st], []))
      | _ \<Rightarrow> ([], []))"
  by (simp add: line_step_def Let_def split: option.splits csv_file.splits)

lemma combine_step_acc:
  "combine_step folder m acc = acc @ combine_step folder m []"
  by (simp add: combine_step_def Let_def split: option.splits csv_file.splits)

lemma fold_combine_step:
  "fold (combine_step folder) ms acc = acc @ concat (map (\<lambda>m. combine_step folder m []) ms)"
proof (induction ms arbitrary: acc)
  case Nil
  show ?case by simp
next
  case (Cons m ms)
  have "fold (combine_step folder) (m # ms) acc
        = fold (combine_step folder) ms (acc @ combine_step folder m [])"
    using combine_step_acc [of folder m acc] by simp
  then show ?case by (simp add: Cons.IH)
qed

lemma skipped_moment:
  assumes "start_time m = None \<or> end_time m = None \<or> folder (video_id m) = Missing
           \<or> folder (video_id m) = Unreadable"
  shows "combine_step folder m [] = []" and "contribution folder m name = []"
  using assms
  by (auto simp: combine_step_def contribution_def split: option.splits csv_file.splits)

lemma aggregated_box_skip:
  assumes "\<And>name. contribution folder m name = []"
  shows "aggregated_box folder (xs @ m # ys) q = aggregated_box folder (xs @ ys) q"
proof -
  have "fold (box_step folder) (xs @ m # ys) (\<lambda>name. [])
      = fold (box_step folder) (xs @ ys) (\<lambda>name. [])"
    unfolding fold_box_step by (simp add: assms)
  then show ?thesis
    unfolding aggregated_box_def Let_def by (simp only:)
qed

lemma compute_averages_segments:
  "map_sum id average_metrics (compute_averages folder ms) =
     (let combined_segments = concat (map (\<lambda>m. combine_step folder m []) ms)
      in if combined_segments = [] then Inl NoValidData
         else Inr (map (\<lambda>c. (c, series_mean (col (pd_concat combined_segments) c)))
                     (filter (\<lambda>c. c \<in> set (columns (pd_concat combined_segments))) ORDERED_MEASURES)))"
  by (simp add: compute_averages_def Let_def fold_combine_step)

subsection \<open>Missing and unreadable files\<close>

text \<open>
  Claim C8, as amended. A moment whose file is missing is skipped without a trace: the
  aligned loop, the aligned result, the box result and the pooled averages are those of
  the request without the moment. A moment whose file cannot be read adds nothing
  either, and no request fails because of it; the box result and the pooled averages
  are again those of the request without it, but the aligned mode records its label in
  the list of excluded names, and answers otherwise as it does without the moment.
\<close>

theorem missing_and_unreadable:
  "(folder (video_id m) = Missing \<longrightarrow>
      line_loop folder pre post (pd + post) (xs @ m # ys) = line_loop folder pre post (pd + post) (xs @ ys)
    \<and> aggregated_line folder (xs @ m # ys) pre post pd q = aggregated_line folder (xs @ ys) pre post pd q
    \<and> aggregated_box folder (xs @ m # ys) q = aggregated_box folder (xs @ ys) q
    \<and> map_sum id average_metrics (compute_averages folder (xs @ m # ys))
        = map_sum id average_metrics (compute_averages folder (xs @ ys)))
   \<and> (folder (video_id m) = Unreadable \<and> start_time m = Some st \<and> end_time m = Some et \<longrightarrow>
      line_loop folder pre post (pd + post) (xs @ m # ys)
        = (fst (line_loop folder pre post (pd + post) (xs @ ys)),
           snd (line_loop folder pre post (pd + post) xs) @ [ad_name m]
             @ snd (line_loop folder pre post (pd + post) ys))
    \<and> aggregated_line folder (xs @ m # ys) pre post pd q =
        (case aggregated_line folder (xs @ ys) pre post pd q of
           Inl e \<Rightarrow> Inl e
         | Inr r \<Rightarrow> Inr (r\<lparr>line_excluded :=
                              snd (line_loop folder pre post (pd + post) xs) @ [ad_name m]
                                @ snd (line_loop folder pre post (pd + post) ys)\<rparr>))
    \<and> aggregated_box folder (xs @ m # ys) q = aggregated_box folder (xs @ ys) q
    \<and> map_sum id average_metrics (compute_averages folder (xs @ m # ys))
        = map_sum id average_metrics (compute_averages folder (xs @ ys)))"
proof (intro conjI impI)
  assume missing: "folder (video_id m) = Missing"
  then have one: "line_step folder pre post (pd + post) m ([], []) = ([], [])"
    by (simp add: line_step_outcome split: option.splits)
  show loop: "line_loop folder pre post (pd + post) (xs @ m # ys)
      = line_loop folder pre post (pd + post) (xs @ ys)"
    by (simp only: line_loop_insert one) (simp add: line_loop_append)
  show "aggregated_line folder (xs @ m # ys) pre post pd q
      = aggregated_line folder (xs @ ys) pre post pd q"
    by (simp only: aggregated_line_char loop)
  show "aggregated_box folder (xs @ m # ys) q = aggregated_box folder (xs @ ys) q"
    using missing by (intro aggregated_box_skip skipped_moment(2)) simp
  show "map_sum id average_metrics (compute_averages folder (xs @ m # ys))
        = map_sum id average_metrics (compute_averages folder (xs @ ys))"
    using missing by (simp add: compute_averages_segments skipped_moment(1))
next
  assume "folder (video_id m) = Unreadable \<and> start_time m = Some st \<and> end_time m = Some et"
  then have unreadable: "folder (video_id m) = Unreadable"
    and one: "line_step folder pre post (pd + post) m ([], []) = ([], [ad_name m])"
    by (simp_all add: line_step_outcome)
  show loop: "line_loop folder pre post (pd + post) (xs @ m # ys)
        = (fst (line_loop folder pre post (pd + post) (xs @ ys)),
           snd (line_loop folder pre post (pd + post) xs) @ [ad_name m]
             @ snd (line_loop folder pre post (pd + post) ys))"
    by (simp only: line_loop_insert one) (simp add: line_loop_append)
  have "aggregated_line folder (xs @ m # ys) pre post pd q =
        (case aggregated_line folder (xs @ ys) pre post pd q of
           Inl e \<Rightarrow> Inl e
         | Inr r \<Rightarrow> Inr (r\<lparr>line_excluded :=
               snd (line_loop folder pre post (pd + post) (xs @ m # ys))\<rparr>))"
    by (rule aggregated_line_events) (simp add: loop)
  then show "aggregated_line folder (xs @ m # ys) pre post pd q =
        (case aggregated_line folder (xs @ ys) pre post pd q of
           Inl e \<Rightarrow> Inl e
         | Inr r \<Rightarrow> Inr (r\<lparr>line_excluded :=
                              snd (line_loop folder pre post (pd + post) xs) @ [ad_name m]
                                @ snd (line_loop folder pre post (pd + post) ys)\<rparr>))"
    by (simp only: loop snd_conv)
  show "aggregated_box folder (xs @ m # ys) q = aggregated_box folder (xs @ ys) q"
    using unreadable by (intro aggregated_box_skip skipped_moment(2)) simp
  show "map_sum id average_metrics (compute_averages folder (xs @ m # ys))
        = map_sum id average_metrics (compute_averages folder (xs @ ys))"
    using unreadable by (simp add: compute_averages_segments skipped_moment(1))
qed

lemma example_moment_fields:
  "video_id (example_moment vid st et) = vid"
  "start_time (example_moment vid st et) = Some st"
  "end_time (example_moment vid st et) = Some et"
  "ad_name (example_moment vid st et) = vid"
  by (simp_all add: example_moment_def)

lemma example_loop_one:
  "line_loop example_folder 0 0 2 [example_moment ''A'' 0 2] =
     ([relative_to (between (example_frame [(0, 0.2), (1, 0.4), (2, 0.6)]) 0 2) 0], [])"
  by (simp add: line_loop_def line_step_def example_folder_def example_moment_def)

lemma example_loop_broken:
  "line_loop example_folder 0 0 2 [example_moment ''A'' 0 2, example_moment ''broken'' 0 2] =
     ([relative_to (between (example_frame [(0, 0.2), (1, 0.4), (2, 0.6)]) 0 2) 0], [''broken''])"
  "line_loop example_folder 0 0 2 [example_moment ''A'' 0 2, example_moment ''absent'' 0 2] =
     ([relative_to (between (example_frame [(0, 0.2), (1, 0.4), (2, 0.6)]) 0 2) 0], [])"
  by (simp_all add: line_loop_def line_step_def example_folder_def example_moment_def)

lemma example_one_Inr:
  "\<not> isl (aggregated_line example_folder [example_moment ''A'' 0 2] 0 0 2 ''q'')"
  by (simp add: aggregated_line_char Let_def example_loop_one example_not_raising)

theorem missing_and_unreadable_witness:
  "example_folder ''absent'' = Missing
   \<and> example_folder ''broken'' = Unreadable
   \<and> \<not> isl (aggregated_line example_folder [example_moment ''A'' 0 2] 0 0 2 ''q'')
   \<and> aggregated_line example_folder
        [example_moment ''A'' 0 2, example_moment ''absent'' 0 2] 0 0 2 ''q''
       = aggregated_line example_folder [example_moment ''A'' 0 2] 0 0 2 ''q''
   \<and> snd (line_loop example_folder 0 0 2
        [example_moment ''A'' 0 2, example_moment ''broken'' 0 2]) = [''broken'']
   \<and> aggregated_box example_folder
        [example_moment ''A'' 0 2, example_moment ''broken'' 0 2] ''q''
       = aggregated_box example_folder [example_moment ''A'' 0 2] ''q''"
proof -
  have absent: "example_folder (video_id (example_moment ''absent'' 0 2)) = Missing"
    and broken: "example_folder (video_id (example_moment ''broken'' 0 2)) = Unreadable
        \<and> start_time (example_moment ''broken'' 0 2) = Some 0
        \<and> end_time (example_moment ''broken'' 0 2) = Some 2"
    by (simp_all add: example_folder_def example_moment_def)
  from missing_and_unreadable
    [where folder = example_folder and m = "example_moment ''absent'' 0 2" and pre = 0
       and post = 0 and pd = 2 and xs = "[example_moment ''A'' 0 2]" and ys = "[]" and q = "''q''"]
    absent
  have a: "aggregated_line example_folder
        ([example_moment ''A'' 0 2] @ example_moment ''absent'' 0 2 # []) 0 0 2 ''q''
       = aggregated_line example_folder ([example_moment ''A'' 0 2] @ []) 0 0 2 ''q''"
    by blast
  from missing_and_unreadable
    [where folder = example_folder and m = "example_moment ''broken'' 0 2" and pre = 0
       and post = 0 and pd = 2 and xs = "[example_moment ''A'' 0 2]" and ys = "[]" and q = "''q''"
       and st = 0 and et = 2]
    broken
  have b: "line_loop example_folder 0 0 (2 + 0)
            ([example_moment ''A'' 0 2] @ example_moment ''broken'' 0 2 # [])
        = (fst (line_loop example_folder 0 0 (2 + 0) ([example_moment ''A'' 0 2] @ [])),
           snd (line_loop example_folder 0 0 (2 + 0) [example_moment ''A'' 0 2])
             @ [ad_name (example_moment ''broken'' 0 2)]
             @ snd (line_loop example_folder 0 0 (2 + 0) []))"
    and c: "aggregated_box example_folder
              ([example_moment ''A'' 0 2] @ example_moment ''broken'' 0 2 # []) ''q''
          = aggregated_box example_folder ([example_moment ''A'' 0 2] @ []) ''q''"
    by blast+
  from b have b': "snd (line_loop example_folder 0 0 2
        [example_moment ''A'' 0 2, example_moment ''broken'' 0 2]) = [''broken'']"
    by (simp add: example_loop_one line_loop_Nil example_moment_fields)
  from a c b' example_one_Inr show ?thesis
    by (simp add: example_folder_def)
qed

theorem read_failure_counterexample:
  "\<not> isl (aggregated_line example_folder
          [example_moment ''A'' 0 2, example_moment ''broken'' 0 2] 0 0 2 ''q'')
   \<and> line_excluded (projr (aggregated_line example_folder
          [example_moment ''A'' 0 2, example_moment ''broken'' 0 2] 0 0 2 ''q'')) = [''broken'']
   \<and> \<not> isl (aggregated_line example_folder
          [example_moment ''A'' 0 2, example_moment ''absent'' 0 2] 0 0 2 ''q'')
   \<and> line_excluded (projr (aggregated_line example_folder
          [example_moment ''A'' 0 2, example_moment ''absent'' 0 2] 0 0 2 ''q'')) = []"
  by (simp add: aggregated_line_char Let_def example_loop_broken example_not_raising)

subsection \<open>No valid data, and moments whose times do not parse\<close>












text \<open>
  For comparison, \<^verbatim>\<open>aggregated_box\<close> itself, whose form is served by the page of
  \<^verbatim>\<open>compute_averages\<close>, makes no such test: called on moments that yield no value it
  answers with no pooled value and a CSV of the header alone.
\<close>

lemma box_without_data:
  assumes "\<forall>m \<in> set ms. \<forall>name. contribution folder m name = []"
  shows "aggregated_box folder ms q =
           \<lparr>box_data_of = (\<lambda>name. []), box_rows = [[CStr ''Query'', CStr ''Measure'']]\<rparr>"
proof -
  have "fold (box_step folder) ms (\<lambda>name. []) = (\<lambda>name. [])"
    using assms by (auto simp: fold_box_step fun_eq_iff)
  then show ?thesis
    by (simp add: aggregated_box_def Let_def box_csv_def)
qed

subsection \<open>The exclusion policy of the aligned mode\<close>








subsection \<open>The end time in the aligned mode\<close>

lemma line_step_end_time:
  "line_step folder pre post ep (m\<lparr>end_time := Some et'\<rparr>) acc
     = line_step folder pre post ep (m\<lparr>end_time := Some et\<rparr>) acc"
  by (simp add: line_step_def Let_def split: option.splits csv_file.splits prod.splits)

lemma line_loop_end_time:
  "line_loop folder pre post ep (xs @ m\<lparr>end_time := Some et'\<rparr> # ys)
     = line_loop folder pre post ep (xs @ m\<lparr>end_time := Some et\<rparr> # ys)"
  by (simp only: line_loop_insert line_step_end_time [where et' = et' and et = et])

text \<open>
  Claim C10. In the aligned mode the outcome of a moment whose times parse and whose
  file is read is decided by its start time, the pre and post durations and the
  effective post duration: it is excluded on an insufficient window
  \<open>[start - pre_duration, start + effective_post]\<close>, and otherwise contributes the rows of
  that window; the end time does not occur. The step of the loop is the same for any two
  numeric end times, in particular for an end time and its snapped value. So replacing
  the numeric end time of one moment by another leaves the aligned result the same for
  the same pure duration, and the graphs of the line mode the same when the pure
  durations of the two requests agree.
\<close>

theorem end_time_only_through_duration:
  assumes "end_time m = Some et"
  shows
   "(\<forall>st df. start_time m = Some st \<and> folder (video_id m) = Readable df \<longrightarrow>
       line_step folder pre post (pd + post) m ([], []) =
         (if (pre > 0 \<or> post > 0) \<and> insufficient df (st - pre) (st + (pd + post))
          then ([], [ad_name m])
          else ([relative_to (between df (st - pre) (st + (pd + post))) st], [])))
  \<and> line_step folder pre post (pd + post) (m\<lparr>end_time := Some et'\<rparr>) acc
      = line_step folder pre post (pd + post) m acc
  \<and> (\<forall>df. line_step folder pre post (pd + post) (m\<lparr>end_time := Some (snap_end df et)\<rparr>) acc
      = line_step folder pre post (pd + post) m acc)
  \<and> aggregated_line folder (xs @ m\<lparr>end_time := Some et'\<rparr> # ys) pre post pd q
      = aggregated_line folder (xs @ m # ys) pre post pd q
  \<and> (pure_duration_of (xs @ m\<lparr>end_time := Some et'\<rparr> # ys) = pure_duration_of (xs @ m # ys) \<longrightarrow>
       aggregated_graphs ''line'' folder (xs @ m\<lparr>end_time := Some et'\<rparr> # ys) pre post q
       = aggregated_graphs ''line'' folder (xs @ m # ys) pre post q)"
proof -
  from assms have m: "m\<lparr>end_time := Some et\<rparr> = m" by simp
  have step: "line_step folder pre post ep (m\<lparr>end_time := Some e\<rparr>) acc
      = line_step folder pre post ep m acc" for ep e
    using line_step_end_time [where m = m and et' = e and et = et] by (simp only: m)
  have loop: "line_loop folder pre post ep (xs @ m\<lparr>end_time := Some et'\<rparr> # ys)
      = line_loop folder pre post ep (xs @ m # ys)" for ep
    using line_loop_end_time [where m = m and et' = et' and et = et] by (simp only: m)
  have line: "aggregated_line folder (xs @ m\<lparr>end_time := Some et'\<rparr> # ys) pre post d q
      = aggregated_line folder (xs @ m # ys) pre post d q" for d
    by (simp only: aggregated_line_char loop)
  have window: "line_step folder pre post (pd + post) m ([], []) =
         (if (pre > 0 \<or> post > 0) \<and> insufficient df (st - pre) (st + (pd + post))
          then ([], [ad_name m])
          else ([relative_to (between df (st - pre) (st + (pd + post))) st], []))"
    if "start_time m = Some st" "folder (video_id m) = Readable df" for st df
    using that assms by (simp add: line_step_outcome)
  have graphs: "aggregated_graphs ''line'' folder (xs @ m\<lparr>end_time := Some et'\<rparr> # ys) pre post q
       = aggregated_graphs ''line'' folder (xs @ m # ys) pre post q"
    if "pure_duration_of (xs @ m\<lparr>end_time := Some et'\<rparr> # ys) = pure_duration_of (xs @ m # ys)"
    by (simp add: aggregated_graphs_def Let_def that line)
  from window step line graphs show ?thesis by blast
qed

theorem end_time_only_through_duration_witness:
  "end_time (example_moment ''A'' 0 2) = Some 2
   \<and> pure_duration_of [example_moment ''A'' 0 5, example_moment ''B'' 0 2]
       = pure_duration_of [example_moment ''A'' 0 2, example_moment ''B'' 0 2]
   \<and> aggregated_graphs ''line'' example_folder
        [example_moment ''A'' 0 5, example_moment ''B'' 0 2] 0 0 ''q''
       = aggregated_graphs ''line'' example_folder
        [example_moment ''A'' 0 2, example_moment ''B'' 0 2] 0 0 ''q''
   \<and> \<not> isl (aggregated_graphs ''line'' example_folder
        [example_moment ''A'' 0 2, example_moment ''B'' 0 2] 0 0 ''q'')"
proof -
  have later: "(example_moment ''A'' 0 2)\<lparr>end_time := Some 5\<rparr> = example_moment ''A'' 0 5"
    by (simp add: example_moment_def)
  have pd: "pure_duration_of [example_moment ''A'' 0 5, example_moment ''B'' 0 2] = 2"
    "pure_duration_of [example_moment ''A'' 0 2, example_moment ''B'' 0 2] = 2"
    by (simp_all add: pure_duration_of_def durations_def py_min_def example_moment_fields)
  note t = end_time_only_through_duration
    [where m = "example_moment ''A'' 0 2" and et = 2 and et' = 5
       and folder = example_folder and xs = "[]" and ys = "[example_moment ''B'' 0 2]"
       and pre = 0 and post = 0 and q = "''q''", OF example_moment_fields(3)]
  have same: "pure_duration_of ([] @ (example_moment ''A'' 0 2)\<lparr>end_time := Some 5\<rparr> # [example_moment ''B'' 0 2])
      = pure_duration_of ([] @ example_moment ''A'' 0 2 # [example_moment ''B'' 0 2])"
    by (simp add: later pd)
  with t have "aggregated_graphs ''line'' example_folder
        ([] @ (example_moment ''A'' 0 2)\<lparr>end_time := Some 5\<rparr> # [example_moment ''B'' 0 2]) 0 0 ''q''
       = aggregated_graphs ''line'' example_folder
        ([] @ example_moment ''A'' 0 2 # [example_moment ''B'' 0 2]) 0 0 ''q''"
    by blast
  then have eq: "aggregated_graphs ''line'' example_folder
        [example_moment ''A'' 0 5, example_moment ''B'' 0 2] 0 0 ''q''
       = aggregated_graphs ''line'' example_folder
        [example_moment ''A'' 0 2, example_moment ''B'' 0 2] 0 0 ''q''"
    by (simp add: later)
  have ok: "\<not> isl (aggregated_graphs ''line'' example_folder
        [example_moment ''A'' 0 2, example_moment ''B'' 0 2] 0 0 ''q'')"
    using example_line_Inr by (simp add: aggregated_graphs_def pd example_line_def)
  from eq ok pd show ?thesis
    by (simp add: example_moment_fields)
qed

subsection \<open>Linear interpolation\<close>

lemma interp_scan_last:
  assumes "sorted_wrt (<) (map fst ((x0, y0) # ps))" and "x = x0"
  shows "interp_scan x ((x0, y0) # ps) = y0"
  using assms by (cases ps) auto


lemma interp_scan_skip:
  assumes "sorted_wrt (<) (map fst (as @ (x0, y0) # ps))" and "x0 \<le> x"
  shows "interp_scan x (as @ (x0, y0) # ps) = interp_scan x ((x0, y0) # ps)"
  using assms
proof (induction as)
  case Nil
  show ?case by simp
next
  case (Cons a as)
  obtain xa ya where a: "a = (xa, ya)" by (cases a)
  from Cons.prems have sorted: "sorted_wrt (<) (map fst (as @ (x0, y0) # ps))"
    by simp
  obtain xn yn rest where nxt: "as @ (x0, y0) # ps = (xn, yn) # rest"
    by (cases "as @ (x0, y0) # ps") auto
  have "xn \<le> x0"
  proof (cases as)
    case Nil
    with nxt show ?thesis by simp
  next
    case (Cons b bs')
    with nxt have "b = (xn, yn)" by simp
    with Cons sorted show ?thesis by (auto simp: sorted_wrt_append)
  qed
  with Cons.prems(2) have "\<not> x < xn" by simp
  then have "interp_scan x (a # as @ (x0, y0) # ps) = interp_scan x (as @ (x0, y0) # ps)"
    unfolding a nxt by simp
  with Cons.IH [OF sorted Cons.prems(2)] show ?case by simp
qed

lemma interp_at_scan:
  assumes "sorted_wrt (<) (map fst (as @ (x0, y0) # ps))" and "x0 \<le> x"
  shows "interp_at x (as @ (x0, y0) # ps) = interp_scan x ((x0, y0) # ps)"
proof (cases as)
  case Nil
  with assms show ?thesis by (simp add: interp_at_def)
next
  case (Cons a as')
  obtain xa ya where a: "a = (xa, ya)" by (cases a)
  from assms(1) Cons a have "xa < x0" by (auto simp: sorted_wrt_append)
  with assms(2) have "\<not> x < xa" by simp
  then have "interp_at x (as @ (x0, y0) # ps) = interp_scan x (as @ (x0, y0) # ps)"
    unfolding Cons a by (simp add: interp_at_def)
  with interp_scan_skip [OF assms] show ?thesis by simp
qed


lemma interp_at_left:
  assumes "x \<le> x0" and "sorted_wrt (<) (map fst ((x0, y0) # ps))"
  shows "interp_at x ((x0, y0) # ps) = y0"
proof (cases "x < x0")
  case True
  then show ?thesis by (simp add: interp_at_def)
next
  case False
  with assms(1) have "x = x0" by simp
  with interp_scan_last [OF assms(2) this] show ?thesis by (simp add: interp_at_def)
qed

lemma interp_at_right:
  assumes "sorted_wrt (<) (map fst (as @ [(x0, y0)]))" and "x0 \<le> x"
  shows "interp_at x (as @ [(x0, y0)]) = y0"
  using interp_at_scan [OF assms] by simp

subsection \<open>The averaged curves of the aligned mode\<close>





lemma mean_curve_nth:
  assumes "name \<in> set ORDERED_MEASURES" and "contributing name evs \<noteq> []" and "i < length ct"
  shows "mean_curve ct evs name = Some (map (mean_at name evs) ct)"
    and "map (mean_at name evs) ct ! i =
         nan_mean (map (\<lambda>seg. interp_at (ct ! i) (zip (RelativeTime seg) (col seg name)))
                     (contributing name evs))"
  using assms by (simp_all add: mean_curve_def mean_at_def)












end
